theory Spec2Isabelle
  imports Main "HOL-Library.AList"
begin

section \<open>Python values\<close>

text \<open>
  A Python \<open>str\<close> is a sequence of Unicode code points, and slicing and \<open>len\<close> count code
  points. A string is therefore a list of code points (natural numbers); \<open>py\<close> turns an
  ASCII literal into such a list.
\<close>

type_synonym pystr = "nat list"

abbreviation py :: "string \<Rightarrow> pystr" where
  "py s \<equiv> map of_char s"

definition nl :: pystr where
  "nl = [10]"

text \<open>The code point U+1F4E2 that opens every item message.\<close>

definition loudspeaker :: pystr where
  "loudspeaker = [128226]"

text \<open>
  What \<open>json.load\<close> can return and what the program stores in \<open>last_entries\<close>:
  \<open>None\<close>, booleans, numbers (kept as their literal), strings, lists and dicts. A dict keeps
  its insertion order, so it is an association list.
\<close>

datatype pyval =
    PyNone
  | PyBool bool
  | PyNum pystr
  | PyStr pystr
  | PyList "pyval list"
  | PyDict "(pystr \<times> pyval) list"

datatype exn =
    JSONDecodeError
  | AttributeError
  | TypeError
  | OtherError pystr

text \<open>\<open>d.get(k)\<close>: only a dict has the method; a missing key gives \<open>None\<close>.\<close>

definition dict_get :: "pyval \<Rightarrow> pystr \<Rightarrow> exn + pyval" where
  "dict_get d k =
     (case d of
        PyDict kvs \<Rightarrow> Inr (case map_of kvs k of None \<Rightarrow> PyNone | Some v \<Rightarrow> v)
      | _ \<Rightarrow> Inl AttributeError)"

text \<open>\<open>d[k] = v\<close> with a string key: only a dict accepts it.\<close>

definition dict_setitem :: "pyval \<Rightarrow> pystr \<Rightarrow> pyval \<Rightarrow> exn + pyval" where
  "dict_setitem d k v =
     (case d of
        PyDict kvs \<Rightarrow> Inr (PyDict (AList.update k v kvs))
      | _ \<Rightarrow> Inl TypeError)"

text \<open>\<open>s.replace(old, new)\<close> for a pattern \<open>old\<close> of one character.\<close>

definition replace :: "nat \<Rightarrow> pystr \<Rightarrow> pystr \<Rightarrow> pystr" where
  "replace old new s = concat (map (\<lambda>c. if c = old then new else [c]) s)"

section \<open>Configuration\<close>

record feed_config =
  name :: pystr
  url :: pystr

definition RSS_FEEDS :: "feed_config list" where
  "RSS_FEEDS =
     [\<lparr>name = py ''Slashdot'', url = py ''https://rss.slashdot.org/Slashdot/slashdotMain''\<rparr>,
      \<lparr>name = py ''Phys.org'', url = py ''https://phys.org/rss-feed/''\<rparr>,
      \<lparr>name = py ''9to5 Linux'', url = py ''https://9to5linux.com/feed/atom''\<rparr>]"

definition TELEGRAM_BOT_TOKEN :: pystr where
  "TELEGRAM_BOT_TOKEN = py ''YOUR_TELEGRAM_BOT_TOKEN''"

definition TELEGRAM_CHAT_ID :: pystr where
  "TELEGRAM_CHAT_ID = py ''YOUR_TELEGRAM_CHAT_ID''"

section \<open>Feeds and entries\<close>

text \<open>
  The parsed feed and its entries are objects whose attributes may be missing: a missing
  attribute is \<open>None\<close> here, \<open>getattr\<close> with a default is a case distinction, and a plain
  attribute read of a missing attribute raises \<open>AttributeError\<close>. The dicts inside
  \<open>links\<close>, \<open>authors\<close> and \<open>content\<close> are association lists from keys to strings. An entry
  is a dict-like object, so it is falsy exactly when it has no key at all; \<open>other_keys\<close>
  says whether it has keys besides the ones this program reads.
\<close>

type_synonym strdict = "(pystr \<times> pystr) list"

record entry =
  title :: "pystr option"
  link :: "pystr option"
  links :: "strdict list option"
  author :: "pystr option"
  authors :: "strdict list option"
  summary :: "pystr option"
  content :: "strdict list option"
  description :: "pystr option"
  published :: "pystr option"
  updated :: "pystr option"
  other_keys :: bool

record feed =
  feed_title :: "pystr option"
  bozo :: "int option"
  bozo_exception :: "pystr option"
  entries :: "entry list option"

definition entry_truthy :: "entry \<Rightarrow> bool" where
  "entry_truthy e \<longleftrightarrow>
     \<not> (title e = None \<and> link e = None \<and> links e = None \<and> author e = None \<and>
        authors e = None \<and> summary e = None \<and> content e = None \<and>
        description e = None \<and> published e = None \<and> updated e = None \<and> \<not> other_keys e)"

section \<open>Program state\<close>

text \<open>
  The two global dicts, the state file on disk (\<open>None\<close> when it does not exist) with the
  history of what was written to it, the requests posted to the Telegram API with their
  outcome, and the lines printed.
\<close>

record request =
  req_bot_token :: pystr
  req_chat_id :: pystr
  req_text :: pystr
  req_disable_web_page_preview :: bool

datatype log_line =
    LogLoaded pyval
  | LogCouldNotDecode
  | LogNoFile
  | LogSaved
  | LogBozo pystr pystr
  | LogFetchError pystr exn
  | LogSent
  | LogSendError
  | LogTestAttempt
  | LogTestOk
  | LogTestFailed
  | LogStarting
  | LogExiting
  | LogStartupConfirmations
  | LogFetchingStartup pystr
  | LogNoStartupEntry pystr
  | LogCheckingFeeds
  | LogChecking pystr pystr
  | LogNewItem pystr pystr
  | LogNoNewItems pystr
  | LogNoItems pystr
  | LogFinished

record state =
  last_entries :: pyval
  feed_title_cache :: "(pystr \<times> pystr) list"
  disk :: "pystr option"
  writes :: "pystr list"
  posts :: "(request \<times> bool) list"
  stdout :: "log_line list"

definition print :: "log_line \<Rightarrow> state \<Rightarrow> state" where
  "print l s = s\<lparr>stdout := stdout s @ [l]\<rparr>"

text \<open>The module as loaded: both dicts empty, nothing posted or printed yet.\<close>

definition initial_state :: "pystr option \<Rightarrow> state" where
  "initial_state f =
     \<lparr>last_entries = PyDict [], feed_title_cache = [], disk = f, writes = [],
      posts = [], stdout = []\<rparr>"

section \<open>State store\<close>

text \<open>
  \<open>json.load\<close> and \<open>json.dump\<close> are library functions and are parameters here:
  \<open>json_load\<close> maps the content of the file to the value read or to the exception raised,
  \<open>json_dump\<close> maps a value to the text written. Only \<open>JSONDecodeError\<close> is caught.
  Opening, reading and writing the file are taken to succeed.
\<close>

definition load_last_entries ::
  "(pystr \<Rightarrow> exn + pyval) \<Rightarrow> state \<Rightarrow> (exn \<times> state) + (pyval \<times> state)" where
  "load_last_entries json_load s =
     (case disk s of
        Some txt \<Rightarrow>
          (case json_load txt of
             Inr v \<Rightarrow>
               (let s1 = print (LogLoaded v) (s\<lparr>last_entries := v\<rparr>)
                in Inr (last_entries s1, s1))
           | Inl JSONDecodeError \<Rightarrow>
               (let s1 = (print LogCouldNotDecode s)\<lparr>last_entries := PyDict []\<rparr>
                in Inr (last_entries s1, s1))
           | Inl e \<Rightarrow> Inl (e, s))
      | None \<Rightarrow>
          (let s1 = print LogNoFile s
           in Inr (last_entries s1, s1)))"

definition save_last_entries :: "(pyval \<Rightarrow> pystr) \<Rightarrow> state \<Rightarrow> state" where
  "save_last_entries json_dump s =
     print LogSaved
       (s\<lparr>disk := Some (json_dump (last_entries s)),
          writes := writes s @ [json_dump (last_entries s)]\<rparr>)"

section \<open>Feed poller\<close>

text \<open>
  \<open>parsed\<close> is what \<open>feedparser.parse\<close> does for this call: the exception it raises or the
  feed it returns. Everything inside the \<open>try\<close> that raises ends in the handler, also the
  reads of \<open>bozo_exception\<close> and \<open>entries\<close> when the attribute is missing.
\<close>

definition get_feed_and_latest_item ::
  "pystr \<Rightarrow> exn + feed \<Rightarrow> state \<Rightarrow> (feed option \<times> entry option) \<times> state" where
  "get_feed_and_latest_item feed_url parsed s =
     (case parsed of
        Inl e \<Rightarrow> ((None, None), print (LogFetchError feed_url e) s)
      | Inr fd \<Rightarrow>
          (case (if bozo fd = Some 1
                 then (case bozo_exception fd of
                         None \<Rightarrow> Inl AttributeError
                       | Some b \<Rightarrow> Inr (print (LogBozo feed_url b) s))
                 else Inr s) of
             Inl e \<Rightarrow> ((None, None), print (LogFetchError feed_url e) s)
           | Inr s1 \<Rightarrow>
               (case entries fd of
                  None \<Rightarrow> ((None, None), print (LogFetchError feed_url AttributeError) s1)
                | Some [] \<Rightarrow> ((Some fd, None), s1)
                | Some (e # _) \<Rightarrow> ((Some fd, Some e), s1))))"

section \<open>Notifier\<close>

text \<open>
  \<open>delivered\<close> is the outcome of the HTTP request: \<open>True\<close> when \<open>requests.post\<close> and
  \<open>raise_for_status\<close> return, \<open>False\<close> when one of them raises a \<open>RequestException\<close>.
\<close>

definition send_telegram_message ::
  "pystr \<Rightarrow> pystr \<Rightarrow> pystr \<Rightarrow> bool \<Rightarrow> bool \<Rightarrow> state \<Rightarrow> bool \<times> state" where
  "send_telegram_message chat_id text bot_token include_web_page_preview delivered s =
     (let payload = \<lparr>req_bot_token = bot_token, req_chat_id = chat_id, req_text = text,
                     req_disable_web_page_preview = \<not> include_web_page_preview\<rparr>;
          s1 = s\<lparr>posts := posts s @ [(payload, delivered)]\<rparr>
      in if delivered then (True, print LogSent s1) else (False, print LogSendError s1))"

definition test_message :: pystr where
  "test_message =
     py ''<b>'' @ [128640] @ py '' RSS Multi-Feed Bot Test Message '' @ [128640] @ py ''</b>''
     @ nl @ nl
     @ py ''If you see this, your Telegram bot token and chat ID are correctly configured!''"

definition test_telegram_connection :: "pystr \<Rightarrow> pystr \<Rightarrow> bool \<Rightarrow> state \<Rightarrow> bool \<times> state" where
  "test_telegram_connection chat_id bot_token delivered s =
     (case send_telegram_message chat_id test_message bot_token False delivered
             (print LogTestAttempt s) of
        (True, s1) \<Rightarrow> (True, print LogTestOk s1)
      | (False, s1) \<Rightarrow> (False, print LogTestFailed s1))"

section \<open>Message formatter\<close>

text \<open>
  The loop over \<open>entry.links\<close>: the first link with relation \<open>alternate\<close> and type
  \<open>text/html\<close> ends the loop and gives its \<open>href\<close>, which is \<open>None\<close> when that dict has no
  such key.
\<close>

fun find_alternate :: "strdict list \<Rightarrow> pystr option" where
  "find_alternate [] = None"
| "find_alternate (l # ls) =
     (if map_of l (py ''rel'') = Some (py ''alternate'')
         \<and> map_of l (py ''type'') = Some (py ''text/html'')
      then map_of l (py ''href'')
      else find_alternate ls)"

definition entry_url_of :: "entry \<Rightarrow> pystr" where
  "entry_url_of e =
     (let entry_url = link e;
          entry_url =
            (case (entry_url, links e) of
               (None, Some (l # ls)) \<Rightarrow>
                 (case find_alternate (l # ls) of
                    None \<Rightarrow> Some (case map_of l (py ''href'') of
                                     None \<Rightarrow> py ''No Link''
                                   | Some h \<Rightarrow> h)
                  | Some h \<Rightarrow> Some h)
             | _ \<Rightarrow> entry_url)
      in case entry_url of None \<Rightarrow> py ''No Link'' | Some h \<Rightarrow> h)"

definition entry_title_of :: "entry \<Rightarrow> pystr" where
  "entry_title_of e = (case title e of None \<Rightarrow> py ''No Title'' | Some t \<Rightarrow> t)"

definition entry_author_of :: "entry \<Rightarrow> pystr" where
  "entry_author_of e =
     (let entry_author = (case author e of None \<Rightarrow> py ''N/A'' | Some a \<Rightarrow> a)
      in case (entry_author = py ''N/A'', authors e) of
           (True, Some (a # _)) \<Rightarrow>
             (case map_of a (py ''name'') of None \<Rightarrow> py ''N/A'' | Some n \<Rightarrow> n)
         | _ \<Rightarrow> entry_author)"

text \<open>A string or a list is truthy when it is not empty.\<close>

definition entry_content_of :: "entry \<Rightarrow> pystr" where
  "entry_content_of e =
     (case summary e of
        Some (c # cs) \<Rightarrow> c # cs
      | _ \<Rightarrow>
         (case content e of
            Some (d # _) \<Rightarrow>
              (case map_of d (py ''value'') of
                 None \<Rightarrow> py ''No Content Preview''
               | Some v \<Rightarrow> v)
          | _ \<Rightarrow>
             (case description e of
                Some (c # cs) \<Rightarrow> c # cs
              | _ \<Rightarrow> py ''No Content Preview'')))"

definition entry_published_of :: "entry \<Rightarrow> pystr" where
  "entry_published_of e =
     (case published e of
        Some p \<Rightarrow> p
      | None \<Rightarrow> (case updated e of None \<Rightarrow> py ''N/A'' | Some p \<Rightarrow> p))"

text \<open>The last line of the message: 200 characters of the content, then the two replacements.\<close>

definition content_preview :: "pystr \<Rightarrow> pystr" where
  "content_preview entry_content =
     replace (of_char CHR ''>'') (py ''&gt;'')
       (replace (of_char CHR ''<'') (py ''&lt;'') (take 200 entry_content))"

definition message_head :: "pystr \<Rightarrow> feed option \<Rightarrow> entry \<Rightarrow> pystr" where
  "message_head feed_name_from_config feed_obj e =
     (let feed_title_display =
            (case feed_obj of
               None \<Rightarrow> feed_name_from_config
             | Some fd \<Rightarrow> (case feed_title fd of None \<Rightarrow> feed_name_from_config | Some t \<Rightarrow> t))
      in py ''<b>'' @ loudspeaker @ py '' New from '' @ feed_title_display @ py '':</b>'' @ nl @ nl
         @ py ''<b>Title:</b> '' @ entry_title_of e @ nl
         @ py ''<b>Author:</b> '' @ entry_author_of e @ nl
         @ py ''<b>Published:</b> '' @ entry_published_of e @ nl
         @ py ''<b>Link:</b> <a href='' @ [39] @ entry_url_of e @ [39] @ py ''>''
         @ entry_url_of e @ py ''</a>'' @ nl
         @ py ''<b>Content Preview:</b> '')"

definition format_feed_message :: "pystr \<Rightarrow> feed option \<Rightarrow> entry \<Rightarrow> pystr" where
  "format_feed_message feed_name_from_config feed_obj e =
     message_head feed_name_from_config feed_obj e
     @ content_preview (entry_content_of e) @ py ''...''"

section \<open>Main loop\<close>

text \<open>
  A step that raises gives the exception and the state reached when it was raised: what
  was posted and printed before stays posted and printed. Nothing in \<open>main\<close> catches an
  exception, so the first one ends the process.
\<close>

type_synonym outcome = "(exn \<times> state) + state"

text \<open>\<open>feed_title_cache[feed_url] = getattr(feed_obj, 'title', feed_name)\<close>\<close>

definition cache_title :: "feed_config \<Rightarrow> feed \<Rightarrow> state \<Rightarrow> state" where
  "cache_title feed_config fd s =
     s\<lparr>feed_title_cache :=
         AList.update (url feed_config)
           (case feed_title fd of None \<Rightarrow> name feed_config | Some t \<Rightarrow> t)
           (feed_title_cache s)\<rparr>"

text \<open>\<open>if latest_entry:\<close> holds for an entry that is there and is not empty.\<close>

definition truthy :: "entry option \<Rightarrow> entry option" where
  "truthy latest_entry =
     (case latest_entry of Some e \<Rightarrow> if entry_truthy e then Some e else None | None \<Rightarrow> None)"

text \<open>
  The body of the priming loop for one feed. \<open>parsed\<close> and \<open>delivered\<close> are what the fetch
  and the request (if one is made) do in this step. The result of the send is not looked at.
\<close>

definition prime_feed ::
  "feed_config \<Rightarrow> exn + feed \<Rightarrow> bool \<Rightarrow> state \<Rightarrow> outcome" where
  "prime_feed feed_config parsed delivered s =
     (let feed_name = name feed_config;
          feed_url = url feed_config;
          ((feed_obj, latest_entry), s1) =
             get_feed_and_latest_item feed_url parsed (print (LogFetchingStartup feed_name) s);
          s2 = (case feed_obj of Some fd \<Rightarrow> cache_title feed_config fd s1 | None \<Rightarrow> s1)
      in case truthy latest_entry of
           Some e \<Rightarrow>
             (let confirmation_message =
                    py ''<b>[Startup Confirmation] Latest from '' @ feed_name @ py '':</b>''
                    @ nl @ nl @ format_feed_message feed_name feed_obj e;
                  s3 = snd (send_telegram_message TELEGRAM_CHAT_ID confirmation_message
                              TELEGRAM_BOT_TOKEN True delivered s2)
              in case link e of
                   None \<Rightarrow> Inl (AttributeError, s3)
                 | Some l \<Rightarrow>
                     (case dict_setitem (last_entries s3) feed_url (PyStr l) of
                        Inl x \<Rightarrow> Inl (x, s3)
                      | Inr d \<Rightarrow> Inr (s3\<lparr>last_entries := d\<rparr>)))
         | None \<Rightarrow>
             (let s3 = print (LogNoStartupEntry feed_name) s2
              in case dict_setitem (last_entries s3) feed_url PyNone of
                   Inl x \<Rightarrow> Inl (x, s3)
                 | Inr d \<Rightarrow> Inr (s3\<lparr>last_entries := d\<rparr>)))"

text \<open>
  The condition of the polling loop: \<open>latest_entry.link\<close> is read only when the stored value
  is not \<open>None\<close>.
\<close>

definition is_new :: "pyval \<Rightarrow> entry \<Rightarrow> exn + bool" where
  "is_new current_last_entry_link e =
     (if current_last_entry_link = PyNone then Inr True
      else (case link e of
              None \<Rightarrow> Inl AttributeError
            | Some l \<Rightarrow> Inr (PyStr l \<noteq> current_last_entry_link)))"

text \<open>The branch of the polling loop taken for a new item: print, format, send, store, save.\<close>

definition announce ::
  "(pyval \<Rightarrow> pystr) \<Rightarrow> feed_config \<Rightarrow> feed option \<Rightarrow> entry \<Rightarrow> bool \<Rightarrow> state \<Rightarrow> outcome" where
  "announce json_dump feed_config feed_obj e delivered s =
     (case title e of
        None \<Rightarrow> Inl (AttributeError, s)
      | Some t \<Rightarrow>
          (let s1 = print (LogNewItem (name feed_config) t) s;
               message_text = format_feed_message (name feed_config) feed_obj e;
               s2 = snd (send_telegram_message TELEGRAM_CHAT_ID message_text
                           TELEGRAM_BOT_TOKEN True delivered s1)
           in case link e of
                None \<Rightarrow> Inl (AttributeError, s2)
              | Some l \<Rightarrow>
                  (case dict_setitem (last_entries s2) (url feed_config) (PyStr l) of
                     Inl x \<Rightarrow> Inl (x, s2)
                   | Inr d \<Rightarrow> Inr (save_last_entries json_dump (s2\<lparr>last_entries := d\<rparr>)))))"

text \<open>The body of the polling loop for one feed.\<close>

definition poll_feed ::
  "(pyval \<Rightarrow> pystr) \<Rightarrow> feed_config \<Rightarrow> exn + feed \<Rightarrow> bool \<Rightarrow> state \<Rightarrow> outcome" where
  "poll_feed json_dump feed_config parsed delivered s =
     (let feed_name = name feed_config;
          feed_url = url feed_config
      in case dict_get (last_entries s) feed_url of
           Inl x \<Rightarrow> Inl (x, s)
         | Inr current_last_entry_link \<Rightarrow>
             (let ((feed_obj, latest_entry), s1) =
                     get_feed_and_latest_item feed_url parsed
                       (print (LogChecking feed_name feed_url) s);
                  s2 = (case feed_obj of
                          Some fd \<Rightarrow>
                            if map_of (feed_title_cache s1) feed_url = None
                            then cache_title feed_config fd s1 else s1
                        | None \<Rightarrow> s1)
              in case truthy latest_entry of
                   Some e \<Rightarrow>
                     (case is_new current_last_entry_link e of
                        Inl x \<Rightarrow> Inl (x, s2)
                      | Inr True \<Rightarrow> announce json_dump feed_config feed_obj e delivered s2
                      | Inr False \<Rightarrow> Inr (print (LogNoNewItems feed_name) s2))
                 | None \<Rightarrow> Inr (print (LogNoItems feed_name) s2)))"

text \<open>
  The two \<open>for\<close> loops over the configured feeds. Each feed comes with what its fetch and
  its request do in this pass (one observation per configured feed); a pass stops at the
  first exception.
\<close>

type_synonym observation = "(exn + feed) \<times> bool"

fun prime_feeds :: "(feed_config \<times> observation) list \<Rightarrow> state \<Rightarrow> outcome" where
  "prime_feeds [] s = Inr s"
| "prime_feeds ((feed_config, parsed, delivered) # rest) s =
     (case prime_feed feed_config parsed delivered s of
        Inl x \<Rightarrow> Inl x
      | Inr s1 \<Rightarrow> prime_feeds rest s1)"

definition priming ::
  "(pyval \<Rightarrow> pystr) \<Rightarrow> (feed_config \<times> observation) list \<Rightarrow> state \<Rightarrow> outcome" where
  "priming json_dump steps s =
     (case prime_feeds steps s of
        Inl x \<Rightarrow> Inl x
      | Inr s1 \<Rightarrow> Inr (save_last_entries json_dump s1))"

fun poll_feeds ::
  "(pyval \<Rightarrow> pystr) \<Rightarrow> (feed_config \<times> observation) list \<Rightarrow> state \<Rightarrow> outcome" where
  "poll_feeds json_dump [] s = Inr s"
| "poll_feeds json_dump ((feed_config, parsed, delivered) # rest) s =
     (case poll_feed json_dump feed_config parsed delivered s of
        Inl x \<Rightarrow> Inl x
      | Inr s1 \<Rightarrow> poll_feeds json_dump rest s1)"

definition poll_cycle ::
  "(pyval \<Rightarrow> pystr) \<Rightarrow> (feed_config \<times> observation) list \<Rightarrow> state \<Rightarrow> outcome" where
  "poll_cycle json_dump steps s =
     (case poll_feeds json_dump steps (print LogCheckingFeeds s) of
        Inl x \<Rightarrow> Inl x
      | Inr s1 \<Rightarrow> Inr (print LogFinished s1))"

text \<open>
  \<open>while True\<close> never ends by itself; the process runs until it is killed or an exception
  ends it. \<open>polling\<close> runs the cycles that happen before that: one per element of
  \<open>cycles\<close>, which holds what each cycle observes.
\<close>

fun polling ::
  "(pyval \<Rightarrow> pystr) \<Rightarrow> feed_config list \<Rightarrow> observation list list \<Rightarrow> state \<Rightarrow> outcome" where
  "polling json_dump feeds [] s = Inr s"
| "polling json_dump feeds (obs # cycles) s =
     (case poll_cycle json_dump (zip feeds obs) s of
        Inl x \<Rightarrow> Inl x
      | Inr s1 \<Rightarrow> polling json_dump feeds cycles s1)"

definition startup_summary_message :: pystr where
  "startup_summary_message =
     [9989] @ py '' Bot started! Sending latest entry for each configured RSS feed:'' @ nl @ nl"

text \<open>
  \<open>main\<close>, with what the outside world does in this run: the outcome of the test request
  and of the summary request, what the priming pass observes, and what each polling cycle
  observes. The sleeps change nothing in the state and are left out.
\<close>

definition main ::
  "(pystr \<Rightarrow> exn + pyval) \<Rightarrow> (pyval \<Rightarrow> pystr) \<Rightarrow> bool \<Rightarrow> bool \<Rightarrow> observation list \<Rightarrow>
   observation list list \<Rightarrow> state \<Rightarrow> outcome" where
  "main json_load json_dump test_delivered summary_delivered startup cycles s =
     (case test_telegram_connection TELEGRAM_CHAT_ID TELEGRAM_BOT_TOKEN test_delivered
             (print LogStarting s) of
        (False, s1) \<Rightarrow> Inr (print LogExiting s1)
      | (True, s1) \<Rightarrow>
          (case load_last_entries json_load s1 of
             Inl x \<Rightarrow> Inl x
           | Inr (_, s2) \<Rightarrow>
               (let s3 = snd (send_telegram_message TELEGRAM_CHAT_ID startup_summary_message
                                TELEGRAM_BOT_TOKEN False summary_delivered
                                (print LogStartupConfirmations s2))
                in case priming json_dump (zip RSS_FEEDS startup) s3 of
                     Inl x \<Rightarrow> Inl x
                   | Inr s4 \<Rightarrow> polling json_dump RSS_FEEDS cycles s4)))"

section \<open>The specification's wording and concrete inputs\<close>

text \<open>
  The escaping as the specification words it: every \<open><\<close> and every \<open>>\<close> is replaced by its
  escaped form, every other character stays.
\<close>

definition escape_char :: "nat \<Rightarrow> pystr" where
  "escape_char c =
     (if c = of_char CHR ''<'' then py ''&lt;''
      else if c = of_char CHR ''>'' then py ''&gt;''
      else [c])"

definition escape_spec :: "pystr \<Rightarrow> pystr" where
  "escape_spec s = concat (map escape_char s)"

text \<open>
  Concrete inputs on which the model is run: an entry whose summary has 202 characters, the
  last three being \<open><b>\<close>, and an entry with a short Atom content.
\<close>

definition long_entry :: entry where
  "long_entry =
     \<lparr>title = Some (py ''T''), link = Some (py ''http://a/1''), links = None, author = None,
      authors = None, summary = Some (replicate 199 (of_char CHR ''a'') @ py ''<b>''),
      content = None, description = None, published = None, updated = None,
      other_keys = False\<rparr>"

definition short_entry :: entry where
  "short_entry =
     \<lparr>title = None, link = None, links = None, author = None,
      authors = None, summary = None,
      content = Some [[(py ''value'', py ''a<b'')]], description = None, published = None,
      updated = None, other_keys = False\<rparr>"

text \<open>
  A rendering of a stored value as JSON text, without indentation or escapes, and a reader
  that accepts only the text of the empty dict. They stand for \<open>json.dump\<close> and
  \<open>json.load\<close> where the model is run on concrete inputs.
\<close>

fun join :: "pystr \<Rightarrow> pystr list \<Rightarrow> pystr" where
  "join sep [] = []"
| "join sep [x] = x"
| "join sep (x # y # ys) = x @ sep @ join sep (y # ys)"

fun render :: "pyval \<Rightarrow> pystr" where
  "render PyNone = py ''null''"
| "render (PyBool b) = (if b then py ''true'' else py ''false'')"
| "render (PyNum n) = n"
| "render (PyStr s) = [34] @ s @ [34]"
| "render (PyList vs) = py ''['' @ join (py '', '') (map render vs) @ py '']''"
| "render (PyDict kvs) =
     py ''{'' @ join (py '', '') (map (\<lambda>(k, v). [34] @ k @ [34] @ py '': '' @ render v) kvs)
     @ py ''}''"

definition read_empty_dict :: "pystr \<Rightarrow> exn + pyval" where
  "read_empty_dict txt = (if txt = py ''{}'' then Inr (PyDict []) else Inl JSONDecodeError)"

text \<open>
  Two configured feeds, entries with and without a title or a link, an Atom entry that has
  only a list of links, parsed feeds, and states with a given stored mapping.
\<close>

definition feed1 :: feed_config where
  "feed1 = \<lparr>name = py ''Feed1'', url = py ''http://a''\<rparr>"

definition feed2 :: feed_config where
  "feed2 = \<lparr>name = py ''Feed2'', url = py ''http://b''\<rparr>"

definition plain_entry :: "pystr option \<Rightarrow> pystr option \<Rightarrow> entry" where
  "plain_entry t l =
     \<lparr>title = t, link = l, links = None, author = None, authors = None,
      summary = Some (py ''text''), content = None, description = None, published = None,
      updated = None, other_keys = False\<rparr>"

definition atom_entry :: entry where
  "atom_entry =
     (plain_entry (Some (py ''Post'')) None)
       \<lparr>links := Some [[(py ''rel'', py ''self''), (py ''href'', py ''http://a/3.xml'')],
                       [(py ''rel'', py ''alternate''), (py ''type'', py ''text/html''),
                        (py ''href'', py ''http://a/3'')]]\<rparr>"

definition feed_with :: "entry list \<Rightarrow> feed" where
  "feed_with es = \<lparr>feed_title = None, bozo = Some 0, bozo_exception = None, entries = Some es\<rparr>"

definition stored :: "(pystr \<times> pyval) list \<Rightarrow> state" where
  "stored kvs = (initial_state None)\<lparr>last_entries := PyDict kvs\<rparr>"

abbreviation item_a1 :: entry where "item_a1 \<equiv> plain_entry (Some (py ''First'')) (Some (py ''http://a/1''))"

abbreviation item_a2 :: entry where "item_a2 \<equiv> plain_entry (Some (py ''Second'')) (Some (py ''http://a/2''))"

abbreviation untitled :: entry where "untitled \<equiv> plain_entry None (Some (py ''http://a/2''))"

abbreviation seen_a1 :: state where "seen_a1 \<equiv> stored [(py ''http://a'', PyStr (py ''http://a/1''))]"

abbreviation item_b1 :: entry where "item_b1 \<equiv> plain_entry (Some (py ''Other'')) (Some (py ''http://b/1''))"

abbreviation after_a2 :: state where
  "after_a2 \<equiv> projr (poll_feed render feed1 (Inr (feed_with [item_a2])) False seen_a1)"

abbreviation after_b1 :: state where
  "after_b1 \<equiv> projr (poll_feed render feed2 (Inr (feed_with [item_b1])) True after_a2)"

definition broken_feed :: feed where
  "broken_feed = \<lparr>feed_title = None, bozo = None, bozo_exception = None, entries = None\<rparr>"

abbreviation cycle1 :: "(feed_config \<times> observation) list" where
  "cycle1 \<equiv> [(feed1, Inr (feed_with [item_a2]), False), (feed2, Inr (feed_with [item_b1]), True)]"

abbreviation after_cycle1 :: state where
  "after_cycle1 \<equiv> projr (poll_cycle render cycle1 seen_a1)"

section \<open>Effects of the operations on the state\<close>

lemmas concrete_defs =
  feed1_def feed2_def plain_entry_def atom_entry_def feed_with_def stored_def initial_state_def
  poll_feed_def prime_feed_def announce_def is_new_def truthy_def entry_truthy_def
  get_feed_and_latest_item_def dict_get_def dict_setitem_def send_telegram_message_def
  save_last_entries_def print_def cache_title_def Let_def

lemma print_fields [simp]:
  "last_entries (print l s) = last_entries s"
  "feed_title_cache (print l s) = feed_title_cache s"
  "disk (print l s) = disk s"
  "writes (print l s) = writes s"
  "posts (print l s) = posts s"
  "stdout (print l s) = stdout s @ [l]"
  by (simp_all add: print_def)

lemma cache_title_fields [simp]:
  "last_entries (cache_title c fd s) = last_entries s"
  "disk (cache_title c fd s) = disk s"
  "writes (cache_title c fd s) = writes s"
  "posts (cache_title c fd s) = posts s"
  "stdout (cache_title c fd s) = stdout s"
  by (simp_all add: cache_title_def)

text \<open>
  What a fetch returns depends only on what the parser does, not on the URL or the state:
  both only appear in the lines printed.
\<close>

lemma fetch_result_independent:
  "fst (get_feed_and_latest_item u parsed s) = fst (get_feed_and_latest_item u' parsed s')"
  by (simp add: get_feed_and_latest_item_def split: sum.splits option.splits list.splits)

lemma fetch_fields [simp]:
  "last_entries (snd (get_feed_and_latest_item u parsed s)) = last_entries s"
  "feed_title_cache (snd (get_feed_and_latest_item u parsed s)) = feed_title_cache s"
  "disk (snd (get_feed_and_latest_item u parsed s)) = disk s"
  "writes (snd (get_feed_and_latest_item u parsed s)) = writes s"
  "posts (snd (get_feed_and_latest_item u parsed s)) = posts s"
  by (simp_all add: get_feed_and_latest_item_def split: sum.splits option.splits list.splits)

lemma send_fields [simp]:
  "last_entries (snd (send_telegram_message c t b p d s)) = last_entries s"
  "feed_title_cache (snd (send_telegram_message c t b p d s)) = feed_title_cache s"
  "disk (snd (send_telegram_message c t b p d s)) = disk s"
  "writes (snd (send_telegram_message c t b p d s)) = writes s"
  "posts (snd (send_telegram_message c t b p d s)) =
     posts s @ [(\<lparr>req_bot_token = b, req_chat_id = c, req_text = t,
                   req_disable_web_page_preview = \<not> p\<rparr>, d)]"
  "fst (send_telegram_message c t b p d s) = d"
  by (simp_all add: send_telegram_message_def Let_def)

lemma save_fields [simp]:
  "last_entries (save_last_entries jd s) = last_entries s"
  "feed_title_cache (save_last_entries jd s) = feed_title_cache s"
  "disk (save_last_entries jd s) = Some (jd (last_entries s))"
  "writes (save_last_entries jd s) = writes s @ [jd (last_entries s)]"
  "posts (save_last_entries jd s) = posts s"
  by (simp_all add: save_last_entries_def)

lemma fetched_state:
  assumes "fst (get_feed_and_latest_item u parsed s0) = r"
  obtains s1 where "get_feed_and_latest_item u parsed s = (r, s1)"
    and "last_entries s1 = last_entries s" and "posts s1 = posts s"
    and "writes s1 = writes s" and "disk s1 = disk s"
proof -
  have "fst (get_feed_and_latest_item u parsed s) = r"
    using assms fetch_result_independent [of u parsed s u s0] by simp
  then have "get_feed_and_latest_item u parsed s = (r, snd (get_feed_and_latest_item u parsed s))"
    by (metis prod.collapse)
  then show ?thesis using that [of "snd (get_feed_and_latest_item u parsed s)"] by simp
qed

lemma link_truthy: "link e = Some l \<Longrightarrow> entry_truthy e"
  by (simp add: entry_truthy_def)

section \<open>The polling step\<close>

lemma announce_ok:
  assumes d: "last_entries s = PyDict kvs" and l: "link e = Some l" and t: "title e = Some t"
  shows "\<exists>s'. announce jd cfg fo e dl s = Inr s'
           \<and> last_entries s' = PyDict (AList.update (url cfg) (PyStr l) kvs)
           \<and> posts s' = posts s @
                [(\<lparr>req_bot_token = TELEGRAM_BOT_TOKEN, req_chat_id = TELEGRAM_CHAT_ID,
                   req_text = format_feed_message (name cfg) fo e,
                   req_disable_web_page_preview = False\<rparr>, dl)]
           \<and> writes s' = writes s @ [jd (last_entries s')]
           \<and> disk s' = Some (jd (last_entries s'))"
  by (simp add: announce_def Let_def d l t dict_setitem_def)

text \<open>
  An item with a title and a link that differs from the stored value (or with no stored
  value) is announced in exactly one request, and its link is stored and saved, whatever
  the outcome \<open>dl\<close> of the request is.
\<close>

lemma poll_feed_new_item:
  assumes d: "last_entries s = PyDict kvs"
    and g: "fst (get_feed_and_latest_item (url cfg) parsed s) = (fo, Some e)"
    and l: "link e = Some l" and t: "title e = Some t"
    and new: "map_of kvs (url cfg) \<noteq> Some (PyStr l)"
  shows "\<exists>s'. poll_feed jd cfg parsed dl s = Inr s'
           \<and> last_entries s' = PyDict (AList.update (url cfg) (PyStr l) kvs)
           \<and> posts s' = posts s @
                [(\<lparr>req_bot_token = TELEGRAM_BOT_TOKEN, req_chat_id = TELEGRAM_CHAT_ID,
                   req_text = format_feed_message (name cfg) fo e,
                   req_disable_web_page_preview = False\<rparr>, dl)]
           \<and> writes s' = writes s @ [jd (last_entries s')]
           \<and> disk s' = Some (jd (last_entries s'))"
proof -
  obtain s1 where g1: "get_feed_and_latest_item (url cfg) parsed
                         (print (LogChecking (name cfg) (url cfg)) s) = ((fo, Some e), s1)"
    and s1: "last_entries s1 = last_entries (print (LogChecking (name cfg) (url cfg)) s)"
      "posts s1 = posts (print (LogChecking (name cfg) (url cfg)) s)"
      "writes s1 = writes (print (LogChecking (name cfg) (url cfg)) s)"
    using fetched_state [OF g] by metis
  define s2 where "s2 = (case fo of
                          Some fd \<Rightarrow>
                            if map_of (feed_title_cache s1) (url cfg) = None
                            then cache_title cfg fd s1 else s1
                        | None \<Rightarrow> s1)"
  have s2: "last_entries s2 = PyDict kvs" "posts s2 = posts s" "writes s2 = writes s"
    using s1 d by (simp_all add: s2_def split: option.splits)
  have new': "is_new (case map_of kvs (url cfg) of None \<Rightarrow> PyNone | Some v \<Rightarrow> v) e = Inr True"
    using new by (auto simp: is_new_def l split: option.splits)
  have "poll_feed jd cfg parsed dl s = announce jd cfg fo e dl s2"
    by (simp add: poll_feed_def Let_def d g1 dict_get_def truthy_def link_truthy [OF l]
        new' s2_def [symmetric])
  then show ?thesis using announce_ok [OF s2(1) l t, of jd cfg fo dl] by (simp add: s2)
qed

lemma poll_feed_same_item:
  assumes d: "last_entries s = PyDict kvs"
    and g: "fst (get_feed_and_latest_item (url cfg) parsed s) = (fo, Some e)"
    and l: "link e = Some l"
    and same: "map_of kvs (url cfg) = Some (PyStr l)"
  shows "\<exists>s'. poll_feed jd cfg parsed dl s = Inr s'
           \<and> last_entries s' = last_entries s \<and> posts s' = posts s
           \<and> writes s' = writes s \<and> disk s' = disk s"
proof -
  obtain s1 where g1: "get_feed_and_latest_item (url cfg) parsed
                         (print (LogChecking (name cfg) (url cfg)) s) = ((fo, Some e), s1)"
    and s1: "last_entries s1 = last_entries (print (LogChecking (name cfg) (url cfg)) s)"
      "posts s1 = posts (print (LogChecking (name cfg) (url cfg)) s)"
      "writes s1 = writes (print (LogChecking (name cfg) (url cfg)) s)"
      "disk s1 = disk (print (LogChecking (name cfg) (url cfg)) s)"
    using fetched_state [OF g] by metis
  show ?thesis
    using s1
    by (simp add: poll_feed_def Let_def d g1 dict_get_def truthy_def link_truthy [OF l]
        same is_new_def l split: option.splits)
qed

lemma poll_feed_needs_dict:
  "poll_feed jd cfg parsed dl s = Inr s' \<Longrightarrow> \<exists>kvs. last_entries s = PyDict kvs"
  by (cases "last_entries s") (simp_all add: poll_feed_def dict_get_def)

lemma poll_feed_untitled:
  assumes d: "last_entries s = PyDict kvs"
    and g: "fst (get_feed_and_latest_item (url cfg) parsed s) = (fo, Some e)"
    and l: "link e = Some l" and t: "title e = None"
    and new: "map_of kvs (url cfg) \<noteq> Some (PyStr l)"
  shows "isl (poll_feed jd cfg parsed dl s)"
proof -
  obtain s1 where g1: "get_feed_and_latest_item (url cfg) parsed
                         (print (LogChecking (name cfg) (url cfg)) s) = ((fo, Some e), s1)"
    using fetched_state [OF g] by metis
  have new': "is_new (case map_of kvs (url cfg) of None \<Rightarrow> PyNone | Some v \<Rightarrow> v) e = Inr True"
    using new by (auto simp: is_new_def l split: option.splits)
  show ?thesis
    by (simp add: poll_feed_def Let_def d g1 dict_get_def truthy_def link_truthy [OF l]
        new' announce_def t)
qed

lemma announce_effect:
  assumes "announce jd cfg fo e dl s = Inr s'"
  shows "writes s' = writes s @ [jd (last_entries s')] \<and> disk s' = Some (jd (last_entries s'))
         \<and> (\<forall>u. u \<noteq> url cfg \<longrightarrow> dict_get (last_entries s') u = dict_get (last_entries s) u)"
  using assms
  by (cases "last_entries s")
    (auto simp: announce_def Let_def dict_setitem_def dict_get_def update_conv'
      split: option.splits)

lemma poll_feed_effect:
  assumes "poll_feed jd cfg parsed dl s = Inr s'"
  shows "(last_entries s' = last_entries s \<and> writes s' = writes s \<and> disk s' = disk s)
         \<or> (writes s' = writes s @ [jd (last_entries s')] \<and> disk s' = Some (jd (last_entries s'))
            \<and> (\<forall>u. u \<noteq> url cfg \<longrightarrow> dict_get (last_entries s') u = dict_get (last_entries s) u))"
proof -
  obtain r s1 where g: "get_feed_and_latest_item (url cfg) parsed
                          (print (LogChecking (name cfg) (url cfg)) s) = (r, s1)"
    and s1: "last_entries s1 = last_entries (print (LogChecking (name cfg) (url cfg)) s)"
      "writes s1 = writes (print (LogChecking (name cfg) (url cfg)) s)"
      "disk s1 = disk (print (LogChecking (name cfg) (url cfg)) s)"
    using fetched_state [OF refl] by metis
  obtain fo le where r: "r = (fo, le)" by (cases r)
  show ?thesis
    using assms s1
    by (auto simp: poll_feed_def Let_def g r
        split: sum.splits option.splits bool.splits if_splits dest!: announce_effect)
qed

text \<open>
  A polling step leaves the values stored for the other URLs as they are.
\<close>

lemma poll_feed_other_url:
  assumes "poll_feed jd cfg parsed dl s = Inr s'" and "u \<noteq> url cfg"
  shows "dict_get (last_entries s') u = dict_get (last_entries s) u"
  using poll_feed_effect [OF assms(1)] assms(2) by auto

lemma poll_feeds_other_urls:
  "poll_feeds jd steps s = Inr s' \<Longrightarrow> u \<notin> url ` fst ` set steps \<Longrightarrow>
   dict_get (last_entries s') u = dict_get (last_entries s) u"
proof (induction steps arbitrary: s)
  case Nil
  then show ?case by simp
next
  case (Cons st steps)
  obtain cfg parsed dl where st: "st = (cfg, parsed, dl)" by (cases st)
  from Cons.prems(1) obtain s1 where a: "poll_feed jd cfg parsed dl s = Inr s1"
    and b: "poll_feeds jd steps s1 = Inr s'"
    by (auto simp: st split: sum.splits)
  have "dict_get (last_entries s1) u = dict_get (last_entries s) u"
    using poll_feed_other_url [OF a] Cons.prems(2) by (simp add: st)
  moreover have "dict_get (last_entries s') u = dict_get (last_entries s1) u"
    using Cons.IH [OF b] Cons.prems(2) by simp
  ultimately show ?case by simp
qed

lemma poll_feeds_append:
  "poll_feeds jd (xs @ ys) s = Inr s' \<Longrightarrow>
   \<exists>m. poll_feeds jd xs s = Inr m \<and> poll_feeds jd ys m = Inr s'"
proof (induction xs arbitrary: s)
  case Nil
  then show ?case by simp
next
  case (Cons st xs)
  obtain cfg parsed dl where st: "st = (cfg, parsed, dl)" by (cases st)
  from Cons.prems obtain s1 where a: "poll_feed jd cfg parsed dl s = Inr s1"
    and b: "poll_feeds jd (xs @ ys) s1 = Inr s'"
    by (auto simp: st split: sum.splits)
  from Cons.IH [OF b] show ?case by (simp add: st a)
qed

text \<open>
  A polling step for a feed has run to its end on a fetch whose newest item has link \<open>l\<close>.
  In any later state \<open>s1'\<close> in which the value stored for this feed is still the one that
  step left, a step for the feed whose fetch gives link \<open>l\<close> again posts nothing, writes
  nothing and changes no stored value.
\<close>

lemma second_poll_silent:
  assumes first: "poll_feed jd cfg parsed1 d1 s = Inr s1"
    and g1: "fst (get_feed_and_latest_item (url cfg) parsed1 s) = (fo1, Some e1)"
    and l1: "link e1 = Some l"
    and later: "dict_get (last_entries s1') (url cfg) = dict_get (last_entries s1) (url cfg)"
    and g2: "fst (get_feed_and_latest_item (url cfg) parsed2 s) = (fo2, Some e2)"
    and l2: "link e2 = Some l"
  shows "\<exists>s2. poll_feed jd cfg parsed2 d2 s1' = Inr s2
           \<and> posts s2 = posts s1' \<and> writes s2 = writes s1' \<and> disk s2 = disk s1'
           \<and> last_entries s2 = last_entries s1'"
proof -
  obtain kvs where d: "last_entries s = PyDict kvs"
    using poll_feed_needs_dict [OF first] by blast
  have "\<exists>kvs1. last_entries s1 = PyDict kvs1 \<and> map_of kvs1 (url cfg) = Some (PyStr l)"
  proof (cases "map_of kvs (url cfg) = Some (PyStr l)")
    case True
    then show ?thesis
      using poll_feed_same_item [OF d g1 l1 True, of jd d1] first d by auto
  next
    case False
    show ?thesis
    proof (cases "title e1")
      case None
      then show ?thesis
        using poll_feed_untitled [OF d g1 l1 None False, of jd d1] first by simp
    next
      case (Some t)
      then show ?thesis
        using poll_feed_new_item [OF d g1 l1 Some False, of jd d1] first
        by (auto simp: update_conv')
    qed
  qed
  then obtain kvs1 where k1: "last_entries s1 = PyDict kvs1"
    "map_of kvs1 (url cfg) = Some (PyStr l)" by blast
  obtain kvs1' where k1': "last_entries s1' = PyDict kvs1'"
    using later k1 by (cases "last_entries s1'") (simp_all add: dict_get_def)
  have same: "map_of kvs1' (url cfg) = Some (PyStr l)"
    using later k1 k1' by (simp add: dict_get_def split: option.splits)
  have g2': "fst (get_feed_and_latest_item (url cfg) parsed2 s1') = (fo2, Some e2)"
    using g2 fetch_result_independent [of "url cfg" parsed2 s1' "url cfg" s] by simp
  show ?thesis
    using poll_feed_same_item [OF k1' g2' l2 same, of jd d2] by auto
qed

lemma announce_without_link:
  "link e = None \<Longrightarrow>
   isl (announce jd cfg fo e dl s) \<and> fst (projl (announce jd cfg fo e dl s)) = AttributeError
   \<and> last_entries (snd (projl (announce jd cfg fo e dl s))) = last_entries s
   \<and> writes (snd (projl (announce jd cfg fo e dl s))) = writes s"
  by (simp add: announce_def Let_def split: option.splits)

section \<open>The priming step\<close>

text \<open>
  A priming step whose fetch gives no item stores \<open>None\<close> for the feed and posts nothing.
\<close>

lemma prime_feed_no_item:
  assumes d: "last_entries s = PyDict kvs"
    and g: "fst (get_feed_and_latest_item (url cfg) parsed s) = (fo, le)"
    and n: "truthy le = None"
  shows "\<exists>s'. prime_feed cfg parsed dl s = Inr s'
           \<and> last_entries s' = PyDict (AList.update (url cfg) PyNone kvs)
           \<and> posts s' = posts s \<and> writes s' = writes s"
proof -
  obtain s1 where g1: "get_feed_and_latest_item (url cfg) parsed
                         (print (LogFetchingStartup (name cfg)) s) = ((fo, le), s1)"
    and s1: "last_entries s1 = last_entries (print (LogFetchingStartup (name cfg)) s)"
      "posts s1 = posts (print (LogFetchingStartup (name cfg)) s)"
      "writes s1 = writes (print (LogFetchingStartup (name cfg)) s)"
    using fetched_state [OF g] by metis
  show ?thesis
    using s1 d
    by (simp add: prime_feed_def Let_def g1 n dict_setitem_def split: option.splits)
qed

lemma prime_feed_effect:
  assumes "prime_feed cfg parsed dl s = Inr s'"
  shows "writes s' = writes s \<and> disk s' = disk s"
proof -
  obtain r s1 where g: "get_feed_and_latest_item (url cfg) parsed
                          (print (LogFetchingStartup (name cfg)) s) = (r, s1)"
    and s1: "writes s1 = writes (print (LogFetchingStartup (name cfg)) s)"
      "disk s1 = disk (print (LogFetchingStartup (name cfg)) s)"
    using fetched_state [OF refl] by metis
  obtain fo le where r: "r = (fo, le)" by (cases r)
  show ?thesis
    using assms s1
    by (auto simp: prime_feed_def Let_def g r split: sum.splits option.splits)
qed

lemma prime_feeds_effect:
  "prime_feeds steps s = Inr s' \<Longrightarrow> writes s' = writes s \<and> disk s' = disk s"
proof (induction steps arbitrary: s)
  case Nil
  then show ?case by simp
next
  case (Cons st steps)
  obtain cfg parsed dl where st: "st = (cfg, parsed, dl)" by (cases st)
  from Cons.prems obtain s1 where a: "prime_feed cfg parsed dl s = Inr s1"
    and b: "prime_feeds steps s1 = Inr s'"
    by (auto simp: st split: sum.splits)
  show ?case using prime_feed_effect [OF a] Cons.IH [OF b] by simp
qed

text \<open>
  \<open>main\<close> calls \<open>load_last_entries\<close> once, after the connection test, when \<open>last_entries\<close> is
  still the empty dict of the module.
\<close>

lemma main_loads_into_empty_dict:
  "last_entries (snd (test_telegram_connection c b dl (print LogStarting (initial_state f))))
     = PyDict []"
  by (simp add: test_telegram_connection_def send_telegram_message_def initial_state_def
      print_def Let_def)

section \<open>The message\<close>

lemma replace_append: "replace old new (a @ b) = replace old new a @ replace old new b"
  by (simp add: replace_def)

lemma replace_Cons: "replace old new (c # s) = (if c = old then new else [c]) @ replace old new s"
  by (simp add: replace_def)

lemma replace_Nil: "replace old new [] = []"
  by (simp add: replace_def)

lemma two_replaces_escape:
  "replace (of_char CHR ''>'') (py ''&gt;'') (replace (of_char CHR ''<'') (py ''&lt;'') s)
   = escape_spec s"
proof (induction s)
  case Nil
  show ?case by (simp add: replace_Nil escape_spec_def)
next
  case (Cons c s)
  then show ?case
    by (simp add: replace_Cons replace_append replace_Nil escape_spec_def escape_char_def)
qed

lemma escape_char_clean:
  "of_char CHR ''<'' \<notin> set (escape_char c) \<and> of_char CHR ''>'' \<notin> set (escape_char c)"
  by (simp add: escape_char_def)

lemma escape_spec_clean:
  "of_char CHR ''<'' \<notin> set (escape_spec s) \<and> of_char CHR ''>'' \<notin> set (escape_spec s)"
  using escape_char_clean by (auto simp: escape_spec_def)

lemma entry_url_of_alternate:
  "link e = None \<Longrightarrow> links e = Some ls \<Longrightarrow> find_alternate ls = Some h \<Longrightarrow> entry_url_of e = h"
  by (cases ls) (simp_all add: entry_url_of_def)

lemma long_content: "entry_content_of long_entry = replicate 199 97 @ py ''<b>''"
  by (simp add: entry_content_of_def long_entry_def split: list.splits)

lemma short_content: "entry_content_of short_entry = py ''a<b''"
  by (simp add: entry_content_of_def short_entry_def)

lemma long_escaped:
  "escape_spec (take 200 (replicate 199 97 @ py ''<b>'')) = replicate 199 97 @ py ''&lt;''"
  by code_simp

lemma short_escaped: "escape_spec (take 200 (py ''a<b'')) = py ''a&lt;b''"
  by code_simp

section \<open>Delivery failure\<close>

text \<open>
  Claim C1, counterexample. The stored link is \<open>http://a/1\<close>, the fetch gives an item with
  link \<open>http://a/2\<close>, and the request fails. The step does not look at the result of
  \<open>send_telegram_message\<close>: it stores \<open>http://a/2\<close> and writes the file.
\<close>

theorem failed_delivery_still_stored:
  "\<not> isl (poll_feed render feed1 (Inr (feed_with [item_a2])) False seen_a1)
   \<and> map snd (posts (projr (poll_feed render feed1 (Inr (feed_with [item_a2])) False seen_a1)))
       = [False]
   \<and> last_entries (projr (poll_feed render feed1 (Inr (feed_with [item_a2])) False seen_a1))
       = PyDict [(py ''http://a'', PyStr (py ''http://a/2''))]
   \<and> disk (projr (poll_feed render feed1 (Inr (feed_with [item_a2])) False seen_a1))
       = Some (render (PyDict [(py ''http://a'', PyStr (py ''http://a/2''))]))"
  by (simp add: concrete_defs)

text \<open>
  Claim C1, as amended. When the newest item has a title and its link differs from the
  stored value, and the delivery fails, the failure is only printed: the link is stored and
  saved all the same, and a later step that fetches the same link posts nothing and writes
  nothing.
\<close>

theorem failed_delivery_is_not_retried:
  assumes d: "last_entries s = PyDict kvs"
    and g: "fst (get_feed_and_latest_item (url cfg) parsed s) = (fo, Some e)"
    and l: "link e = Some l" and t: "title e = Some t"
    and new: "map_of kvs (url cfg) \<noteq> Some (PyStr l)"
    and g': "fst (get_feed_and_latest_item (url cfg) parsed' s) = (fo', Some e')"
    and l': "link e' = Some l"
  shows "\<exists>s1 s2. poll_feed jd cfg parsed False s = Inr s1
           \<and> snd (last (posts s1)) = False
           \<and> last_entries s1 = PyDict (AList.update (url cfg) (PyStr l) kvs)
           \<and> disk s1 = Some (jd (last_entries s1))
           \<and> writes s1 = writes s @ [jd (last_entries s1)]
           \<and> poll_feed jd cfg parsed' dl' s1 = Inr s2
           \<and> posts s2 = posts s1 \<and> writes s2 = writes s1"
proof -
  obtain s1 where s1: "poll_feed jd cfg parsed False s = Inr s1"
    "last_entries s1 = PyDict (AList.update (url cfg) (PyStr l) kvs)"
    "snd (last (posts s1)) = False"
    "writes s1 = writes s @ [jd (last_entries s1)]"
    "disk s1 = Some (jd (last_entries s1))"
    using poll_feed_new_item [OF d g l t new, of jd False] by auto
  have same: "map_of (AList.update (url cfg) (PyStr l) kvs) (url cfg) = Some (PyStr l)"
    by (simp add: update_conv')
  have g1: "fst (get_feed_and_latest_item (url cfg) parsed' s1) = (fo', Some e')"
    using g' fetch_result_independent [of "url cfg" parsed' s1 "url cfg" s] by simp
  obtain s2 where "poll_feed jd cfg parsed' dl' s1 = Inr s2" "posts s2 = posts s1"
    "writes s2 = writes s1"
    using poll_feed_same_item [OF s1(2) g1 l' same, of jd dl'] by auto
  with s1 show ?thesis by blast
qed

text \<open>
  Claim C1, witness of the amended statement on the input of the counterexample.
\<close>

theorem failed_delivery_is_not_retried_witness:
  "last_entries seen_a1 = PyDict [(py ''http://a'', PyStr (py ''http://a/1''))]
   \<and> fst (get_feed_and_latest_item (url feed1) (Inr (feed_with [item_a2])) seen_a1)
       = (Some (feed_with [item_a2]), Some item_a2)
   \<and> link item_a2 = Some (py ''http://a/2'') \<and> title item_a2 = Some (py ''Second'')
   \<and> map_of [(py ''http://a'', PyStr (py ''http://a/1''))] (url feed1)
       \<noteq> Some (PyStr (py ''http://a/2''))
   \<and> (\<exists>s1 s2. poll_feed render feed1 (Inr (feed_with [item_a2])) False seen_a1 = Inr s1
         \<and> snd (last (posts s1)) = False
         \<and> last_entries s1
             = PyDict (AList.update (url feed1) (PyStr (py ''http://a/2''))
                         [(py ''http://a'', PyStr (py ''http://a/1''))])
         \<and> disk s1 = Some (render (last_entries s1))
         \<and> writes s1 = writes seen_a1 @ [render (last_entries s1)]
         \<and> poll_feed render feed1 (Inr (feed_with [item_a2])) True s1 = Inr s2
         \<and> posts s2 = posts s1 \<and> writes s2 = writes s1)"
proof -
  have d: "last_entries seen_a1 = PyDict [(py ''http://a'', PyStr (py ''http://a/1''))]"
    by (simp add: stored_def)
  have g: "fst (get_feed_and_latest_item (url feed1) (Inr (feed_with [item_a2])) seen_a1)
             = (Some (feed_with [item_a2]), Some item_a2)"
    by (simp add: get_feed_and_latest_item_def feed_with_def)
  have l: "link item_a2 = Some (py ''http://a/2'')" by (simp add: plain_entry_def)
  have t: "title item_a2 = Some (py ''Second'')" by (simp add: plain_entry_def)
  have new: "map_of [(py ''http://a'', PyStr (py ''http://a/1''))] (url feed1)
               \<noteq> Some (PyStr (py ''http://a/2''))"
    by (simp add: feed1_def)
  show ?thesis
    using d g l t new failed_delivery_is_not_retried [OF d g l t new g l, where jd = render and dl' = True]
    by blast
qed

section \<open>Change detection\<close>

text \<open>
  Claim C2. The stored link is \<open>http://a/1\<close>, the fetch gives an item with link
  \<open>http://a/2\<close> and no title, and a request would be delivered. The step reads
  \<open>latest_entry.title\<close> for the line it prints before it formats the message, so it raises
  \<open>AttributeError\<close>: nothing is posted and the stored link stays \<open>http://a/1\<close>.
  For items with a title the claim holds (\<open>poll_feed_new_item\<close>).
\<close>

theorem untitled_item_ends_polling:
  "isl (poll_feed render feed1 (Inr (feed_with [untitled])) True seen_a1)
   \<and> fst (projl (poll_feed render feed1 (Inr (feed_with [untitled])) True seen_a1))
       = AttributeError
   \<and> posts (snd (projl (poll_feed render feed1 (Inr (feed_with [untitled])) True seen_a1))) = []
   \<and> last_entries (snd (projl (poll_feed render feed1 (Inr (feed_with [untitled])) True seen_a1)))
       = PyDict [(py ''http://a'', PyStr (py ''http://a/1''))]"
  by (simp add: concrete_defs)

section \<open>The identifier of an entry without a direct link\<close>

text \<open>
  Claim C3. An Atom entry with no \<open>link\<close> and an alternate \<open>text/html\<close> link
  \<open>http://a/3\<close>: the message shows \<open>http://a/3\<close>, but both steps read \<open>latest_entry.link\<close>
  for the value they compare and store, raise \<open>AttributeError\<close>, and store nothing.
\<close>

theorem alternate_link_not_used_as_identifier:
  "entry_url_of atom_entry = py ''http://a/3''
   \<and> isl (prime_feed feed1 (Inr (feed_with [atom_entry])) True (initial_state None))
   \<and> fst (projl (prime_feed feed1 (Inr (feed_with [atom_entry])) True (initial_state None)))
       = AttributeError
   \<and> last_entries
        (snd (projl (prime_feed feed1 (Inr (feed_with [atom_entry])) True (initial_state None))))
       = PyDict []
   \<and> isl (poll_feed render feed1 (Inr (feed_with [atom_entry])) True seen_a1)
   \<and> fst (projl (poll_feed render feed1 (Inr (feed_with [atom_entry])) True seen_a1))
       = AttributeError
   \<and> last_entries (snd (projl (poll_feed render feed1 (Inr (feed_with [atom_entry])) True seen_a1)))
       = PyDict [(py ''http://a'', PyStr (py ''http://a/1''))]"
  by (simp add: concrete_defs entry_url_of_def)

section \<open>An unchanged feed\<close>

text \<open>
  Claim C4. A polling cycle has run to its end; in it the fetch for the feed \<open>cfg\<close> gave a
  newest item with link \<open>l\<close>. The next cycle has reached the same feed, and its fetch
  gives link \<open>l\<close> again. No feed processed in between (after it in the first cycle,
  before it in the second) has the same URL. Then the step of the second cycle for this
  feed posts nothing, writes nothing and changes no stored value.
\<close>

theorem unchanged_feed_second_cycle_silent:
  assumes c1: "poll_cycle jd (before1 @ (cfg, parsed1, d1) # after1) s = Inr s1"
    and c2: "poll_feeds jd before2 (print LogCheckingFeeds s1) = Inr t"
    and o1: "url cfg \<notin> url ` fst ` set after1"
    and o2: "url cfg \<notin> url ` fst ` set before2"
    and g1: "fst (get_feed_and_latest_item (url cfg) parsed1 s) = (fo1, Some e1)"
    and l1: "link e1 = Some l"
    and g2: "fst (get_feed_and_latest_item (url cfg) parsed2 t) = (fo2, Some e2)"
    and l2: "link e2 = Some l"
  shows "\<exists>t'. poll_feed jd cfg parsed2 d2 t = Inr t'
           \<and> posts t' = posts t \<and> writes t' = writes t \<and> disk t' = disk t
           \<and> last_entries t' = last_entries t"
proof -
  from c1 obtain m1 where m1: "poll_feeds jd (before1 @ (cfg, parsed1, d1) # after1)
                                 (print LogCheckingFeeds s) = Inr m1"
    and s1: "s1 = print LogFinished m1"
    by (auto simp: poll_cycle_def split: sum.splits)
  from poll_feeds_append [OF m1] obtain a where
    a: "poll_feeds jd ((cfg, parsed1, d1) # after1) a = Inr m1" by blast
  then obtain b where step: "poll_feed jd cfg parsed1 d1 a = Inr b"
    and rest: "poll_feeds jd after1 b = Inr m1"
    by (auto split: sum.splits)
  have "dict_get (last_entries t) (url cfg)
          = dict_get (last_entries (print LogCheckingFeeds s1)) (url cfg)"
    using poll_feeds_other_urls [OF c2 o2] .
  also have "\<dots> = dict_get (last_entries m1) (url cfg)" by (simp add: s1)
  also have "\<dots> = dict_get (last_entries b) (url cfg)"
    using poll_feeds_other_urls [OF rest o1] .
  finally have later: "dict_get (last_entries t) (url cfg) = dict_get (last_entries b) (url cfg)" .
  have g1': "fst (get_feed_and_latest_item (url cfg) parsed1 a) = (fo1, Some e1)"
    using g1 fetch_result_independent [of "url cfg" parsed1 a "url cfg" s] by simp
  have g2': "fst (get_feed_and_latest_item (url cfg) parsed2 a) = (fo2, Some e2)"
    using g2 fetch_result_independent [of "url cfg" parsed2 a "url cfg" t] by simp
  show ?thesis using second_poll_silent [OF step g1' l1 later g2' l2] .
qed

text \<open>
  Claim C4, witness: a cycle over two feeds in which both announce an item, and the step
  for the first feed in the next cycle, with the same link.
\<close>

theorem unchanged_feed_second_cycle_silent_witness:
  "poll_cycle render ([] @ (feed1, Inr (feed_with [item_a2]), False)
                       # [(feed2, Inr (feed_with [item_b1]), True)]) seen_a1 = Inr after_cycle1
   \<and> poll_feeds render [] (print LogCheckingFeeds after_cycle1)
       = Inr (print LogCheckingFeeds after_cycle1)
   \<and> url feed1 \<notin> url ` fst ` set [(feed2, Inr (feed_with [item_b1]), True)]
   \<and> url feed1 \<notin> url ` fst ` set ([] :: (feed_config \<times> observation) list)
   \<and> fst (get_feed_and_latest_item (url feed1) (Inr (feed_with [item_a2])) seen_a1)
       = (Some (feed_with [item_a2]), Some item_a2)
   \<and> link item_a2 = Some (py ''http://a/2'')
   \<and> (\<exists>t'. poll_feed render feed1 (Inr (feed_with [item_a2])) True
                (print LogCheckingFeeds after_cycle1) = Inr t'
         \<and> posts t' = posts (print LogCheckingFeeds after_cycle1)
         \<and> writes t' = writes (print LogCheckingFeeds after_cycle1)
         \<and> disk t' = disk (print LogCheckingFeeds after_cycle1)
         \<and> last_entries t' = last_entries (print LogCheckingFeeds after_cycle1))"
proof -
  have c1: "poll_cycle render ([] @ (feed1, Inr (feed_with [item_a2]), False)
                       # [(feed2, Inr (feed_with [item_b1]), True)]) seen_a1 = Inr after_cycle1"
    by (simp add: concrete_defs poll_cycle_def)
  have c2: "poll_feeds render [] (print LogCheckingFeeds after_cycle1)
              = Inr (print LogCheckingFeeds after_cycle1)"
    by simp
  have o1: "url feed1 \<notin> url ` fst ` set [(feed2, Inr (feed_with [item_b1]), True)]"
    by (simp add: feed1_def feed2_def)
  have o2: "url feed1 \<notin> url ` fst ` set ([] :: (feed_config \<times> observation) list)"
    by simp
  have g: "fst (get_feed_and_latest_item (url feed1) (Inr (feed_with [item_a2])) seen_a1)
             = (Some (feed_with [item_a2]), Some item_a2)"
    by (simp add: get_feed_and_latest_item_def feed_with_def)
  have g': "fst (get_feed_and_latest_item (url feed1) (Inr (feed_with [item_a2]))
                  (print LogCheckingFeeds after_cycle1))
             = (Some (feed_with [item_a2]), Some item_a2)"
    by (simp add: get_feed_and_latest_item_def feed_with_def)
  have l: "link item_a2 = Some (py ''http://a/2'')" by (simp add: plain_entry_def)
  show ?thesis
    using c1 c2 o1 o2 g l
      unchanged_feed_second_cycle_silent [OF c1 c2 o1 o2 g l g' l, where ?d2.0 = True]
    by blast
qed

section \<open>Saving the state\<close>

text \<open>
  Claim C5, counterexample. Priming two feeds from the initial state: after the step of
  the first feed its link is stored, the file is not written and does not exist, and the
  second feed is processed next; the whole priming pass writes the file once, at its end.
\<close>

theorem priming_saves_once:
  "last_entries (projr (prime_feed feed1 (Inr (feed_with [item_a1])) True (initial_state None)))
     = PyDict [(py ''http://a'', PyStr (py ''http://a/1''))]
   \<and> writes (projr (prime_feed feed1 (Inr (feed_with [item_a1])) True (initial_state None))) = []
   \<and> disk (projr (prime_feed feed1 (Inr (feed_with [item_a1])) True (initial_state None))) = None
   \<and> writes (projr (priming render
                      [(feed1, Inr (feed_with [item_a1]), True),
                       (feed2, Inr (feed_with []), True)] (initial_state None)))
       = [render (PyDict [(py ''http://a'', PyStr (py ''http://a/1'')),
                          (py ''http://b'', PyNone)])]"
  by (simp add: concrete_defs priming_def)

text \<open>
  Claim C5, as amended. A polling step that ends either leaves the stored mapping and the
  file as they are, or ends with a write of the whole mapping as it then is; a priming step
  never writes the file; the priming pass writes the whole mapping once, after its last
  feed.
\<close>

theorem saves_follow_updates:
  "(poll_feed jd cfg parsed dl s = Inr s' \<longrightarrow>
      (last_entries s' = last_entries s \<and> writes s' = writes s \<and> disk s' = disk s)
      \<or> (writes s' = writes s @ [jd (last_entries s')] \<and> disk s' = Some (jd (last_entries s'))))
   \<and> (prime_feed cfg parsed dl s = Inr p' \<longrightarrow> writes p' = writes s \<and> disk p' = disk s)
   \<and> (priming jd steps s = Inr s'' \<longrightarrow>
        writes s'' = writes s @ [jd (last_entries s'')]
        \<and> disk s'' = Some (jd (last_entries s'')))"
proof (intro conjI impI)
  assume "poll_feed jd cfg parsed dl s = Inr s'"
  from poll_feed_effect [OF this]
  show "(last_entries s' = last_entries s \<and> writes s' = writes s \<and> disk s' = disk s)
      \<or> (writes s' = writes s @ [jd (last_entries s')] \<and> disk s' = Some (jd (last_entries s')))"
    by blast
next
  assume "prime_feed cfg parsed dl s = Inr p'"
  from prime_feed_effect [OF this] show "writes p' = writes s" "disk p' = disk s" by simp_all
next
  assume a: "priming jd steps s = Inr s''"
  then obtain s1 where b: "prime_feeds steps s = Inr s1" and c: "s'' = save_last_entries jd s1"
    by (auto simp: priming_def split: sum.splits)
  from prime_feeds_effect [OF b] c
  show "writes s'' = writes s @ [jd (last_entries s'')]" "disk s'' = Some (jd (last_entries s''))"
    by simp_all
qed

text \<open>
  Claim C5, witness: a polling step that stores a new link, a priming step, and a priming
  pass over two feeds.
\<close>

theorem saves_follow_updates_witness:
  "poll_feed render feed1 (Inr (feed_with [item_a2])) False seen_a1 = Inr after_a2
   \<and> last_entries after_a2 \<noteq> last_entries seen_a1
   \<and> writes after_a2 = writes seen_a1 @ [render (last_entries after_a2)]
   \<and> disk after_a2 = Some (render (last_entries after_a2))
   \<and> prime_feed feed1 (Inr (feed_with [item_a1])) True (initial_state None)
       = Inr (projr (prime_feed feed1 (Inr (feed_with [item_a1])) True (initial_state None)))
   \<and> writes (projr (prime_feed feed1 (Inr (feed_with [item_a1])) True (initial_state None)))
       = writes (initial_state None)
   \<and> priming render [(feed1, Inr (feed_with [item_a1]), True), (feed2, Inr (feed_with []), True)]
        (initial_state None)
       = Inr (projr (priming render [(feed1, Inr (feed_with [item_a1]), True),
                                     (feed2, Inr (feed_with []), True)] (initial_state None)))
   \<and> writes (projr (priming render [(feed1, Inr (feed_with [item_a1]), True),
                                    (feed2, Inr (feed_with []), True)] (initial_state None)))
       = writes (initial_state None)
         @ [render (last_entries
                     (projr (priming render [(feed1, Inr (feed_with [item_a1]), True),
                                             (feed2, Inr (feed_with []), True)]
                               (initial_state None))))]"
proof -
  have a: "poll_feed render feed1 (Inr (feed_with [item_a2])) False seen_a1 = Inr after_a2"
    by (simp add: concrete_defs)
  have a': "last_entries after_a2 \<noteq> last_entries seen_a1"
    by (simp add: concrete_defs)
  have b: "prime_feed feed1 (Inr (feed_with [item_a1])) True (initial_state None)
       = Inr (projr (prime_feed feed1 (Inr (feed_with [item_a1])) True (initial_state None)))"
    by (simp add: concrete_defs)
  have c: "priming render [(feed1, Inr (feed_with [item_a1]), True), (feed2, Inr (feed_with []), True)]
        (initial_state None)
       = Inr (projr (priming render [(feed1, Inr (feed_with [item_a1]), True),
                                     (feed2, Inr (feed_with []), True)] (initial_state None)))"
    by (simp add: concrete_defs priming_def)
  show ?thesis
    using a a' b c
      saves_follow_updates [where jd = render and cfg = feed1
        and parsed = "Inr (feed_with [item_a2])" and dl = False and s = seen_a1
        and s' = after_a2]
      saves_follow_updates [where cfg = feed1 and parsed = "Inr (feed_with [item_a1])"
        and dl = True and s = "initial_state None"
        and p' = "projr (prime_feed feed1 (Inr (feed_with [item_a1])) True (initial_state None))"]
      saves_follow_updates [where jd = render and s = "initial_state None"
        and steps = "[(feed1, Inr (feed_with [item_a1]), True), (feed2, Inr (feed_with []), True)]"
        and s'' = "projr (priming render [(feed1, Inr (feed_with [item_a1]), True),
                                     (feed2, Inr (feed_with []), True)] (initial_state None))"]
    by blast
qed

section \<open>Loading the state\<close>

text \<open>
  Claim C6. With no state file, \<open>load_last_entries\<close> prints a line and returns
  \<open>last_entries\<close> as it is, the empty dict when \<open>main\<close> calls it
  (\<open>main_loads_into_empty_dict\<close>). With a file on which \<open>json.load\<close> raises
  \<open>JSONDecodeError\<close>, it prints the warning and returns the empty dict. In both cases it
  returns (\<open>Inr\<close>) and does not raise.
\<close>

theorem load_starts_fresh:
  "(disk s = None \<and> last_entries s = PyDict [] \<longrightarrow>
      load_last_entries jl s = Inr (PyDict [], print LogNoFile s))
   \<and> (disk s = Some txt \<and> jl txt = Inl JSONDecodeError \<longrightarrow>
        load_last_entries jl s
          = Inr (PyDict [], (print LogCouldNotDecode s)\<lparr>last_entries := PyDict []\<rparr>))"
  by (simp add: load_last_entries_def Let_def)

text \<open>
  Claim C6, witness: no file, and a file holding \<open>{oops\<close>.
\<close>

theorem load_starts_fresh_witness:
  "disk (initial_state None) = None \<and> last_entries (initial_state None) = PyDict []
   \<and> load_last_entries read_empty_dict (initial_state None)
       = Inr (PyDict [], print LogNoFile (initial_state None))
   \<and> disk (initial_state (Some (py ''{oops''))) = Some (py ''{oops'')
   \<and> read_empty_dict (py ''{oops'') = Inl JSONDecodeError
   \<and> load_last_entries read_empty_dict (initial_state (Some (py ''{oops'')))
       = Inr (PyDict [], (print LogCouldNotDecode (initial_state (Some (py ''{oops''))))
                           \<lparr>last_entries := PyDict []\<rparr>)"
  using load_starts_fresh [of "initial_state None" read_empty_dict]
    load_starts_fresh [of "initial_state (Some (py ''{oops''))" read_empty_dict "py ''{oops''"]
  by (simp add: initial_state_def read_empty_dict_def)

section \<open>The content preview\<close>

text \<open>
  Claim C7. The message ends with the escaped form of the first 200 characters of the
  content, followed by three dots: the content is cut first and escaped afterwards. A
  content of more than 200 characters keeps exactly 200, a shorter one is kept whole, and
  no \<open><\<close> or \<open>>\<close> is left in the preview.
\<close>

theorem preview_truncated_then_escaped:
  "format_feed_message n fo e =
     message_head n fo e @ escape_spec (take 200 (entry_content_of e)) @ py ''...''
   \<and> (200 < length (entry_content_of e) \<longrightarrow> length (take 200 (entry_content_of e)) = 200)
   \<and> (length (entry_content_of e) \<le> 200 \<longrightarrow> take 200 (entry_content_of e) = entry_content_of e)
   \<and> of_char CHR ''<'' \<notin> set (escape_spec (take 200 (entry_content_of e)))
   \<and> of_char CHR ''>'' \<notin> set (escape_spec (take 200 (entry_content_of e)))"
  using escape_spec_clean [of "take 200 (entry_content_of e)"]
    two_replaces_escape [of "take 200 (entry_content_of e)"]
  by (simp add: format_feed_message_def content_preview_def)

text \<open>
  Claim C7, witness: a summary of 202 characters ending in \<open><b>\<close>, of which 200 are kept,
  and a short content.
\<close>

theorem preview_truncated_then_escaped_witness:
  "200 < length (entry_content_of long_entry)
   \<and> length (take 200 (entry_content_of long_entry)) = 200
   \<and> format_feed_message (py ''F'') None long_entry =
       message_head (py ''F'') None long_entry @ replicate 199 97 @ py ''&lt;...''
   \<and> length (entry_content_of short_entry) \<le> 200
   \<and> format_feed_message (py ''F'') None short_entry =
       message_head (py ''F'') None short_entry @ py ''a&lt;b...''"
  using preview_truncated_then_escaped [of "py ''F''" None long_entry]
    preview_truncated_then_escaped [of "py ''F''" None short_entry]
    long_escaped short_escaped
  by (simp add: long_content short_content)

section \<open>Fetch errors\<close>

text \<open>
  Claim C8. An exception raised by the parser is turned into \<open>(None, None)\<close> and a printed
  line, and so is a parsed feed without \<open>entries\<close>; \<open>get_feed_and_latest_item\<close> has no
  other way to end. A polling pass whose first feed fails in this way goes on with the
  remaining feeds, from a state that differs only in the lines printed.
\<close>

theorem fetch_errors_do_not_stop_cycle:
  "get_feed_and_latest_item u (Inl x) s = ((None, None), print (LogFetchError u x) s)
   \<and> (entries fd = None \<longrightarrow> fst (get_feed_and_latest_item u (Inr fd) s) = (None, None))
   \<and> (last_entries s = PyDict kvs \<longrightarrow>
        poll_feeds jd ((cfg, Inl x, dl) # rest) s
          = poll_feeds jd rest
              (s\<lparr>stdout := stdout s @ [LogChecking (name cfg) (url cfg),
                                        LogFetchError (url cfg) x, LogNoItems (name cfg)]\<rparr>))"
  by (simp add: get_feed_and_latest_item_def poll_feed_def dict_get_def truthy_def print_def
      Let_def split: sum.splits option.splits)

text \<open>
  Claim C8, witness: the fetch of feed 1 raises, and feed 2, configured after it, is polled
  and announces its item in the same pass.
\<close>

theorem fetch_errors_do_not_stop_cycle_witness:
  "entries broken_feed = None
   \<and> fst (get_feed_and_latest_item (py ''http://a'') (Inr broken_feed) seen_a1) = (None, None)
   \<and> last_entries seen_a1 = PyDict [(py ''http://a'', PyStr (py ''http://a/1''))]
   \<and> last_entries
        (projr (poll_feeds render [(feed1, Inl (OtherError (py ''timed out'')), True),
                                   (feed2, Inr (feed_with [item_b1]), True)] seen_a1))
       = PyDict [(py ''http://a'', PyStr (py ''http://a/1'')),
                 (py ''http://b'', PyStr (py ''http://b/1''))]
   \<and> length (posts (projr (poll_feeds render [(feed1, Inl (OtherError (py ''timed out'')), True),
                                   (feed2, Inr (feed_with [item_b1]), True)] seen_a1))) = 1"
  using fetch_errors_do_not_stop_cycle [where u = "py ''http://a''"
      and x = "OtherError (py ''timed out'')" and s = seen_a1 and fd = broken_feed
      and kvs = "[(py ''http://a'', PyStr (py ''http://a/1''))]" and jd = render and cfg = feed1
      and dl = True and rest = "[(feed2, Inr (feed_with [item_b1]), True)]"]
  by (simp add: concrete_defs broken_feed_def)

section \<open>The absent baseline\<close>

text \<open>
  Claim C9. Priming a feed whose fetch gives no item stores \<open>None\<close> for it
  (\<open>prime_feed_no_item\<close>). A later polling step on that baseline whose fetch gives an item
  with a link and no title raises \<open>AttributeError\<close> at \<open>latest_entry.title\<close>: nothing is
  posted and nothing is written.
\<close>

theorem absent_baseline_untitled_item_not_announced:
  "prime_feed feed1 (Inr (feed_with [])) True (initial_state None)
     = Inr ((stored [(py ''http://a'', PyNone)])
             \<lparr>feed_title_cache := [(py ''http://a'', py ''Feed1'')],
              stdout := [LogFetchingStartup (py ''Feed1''), LogNoStartupEntry (py ''Feed1'')]\<rparr>)
   \<and> isl (poll_feed render feed1 (Inr (feed_with [untitled])) True
            (stored [(py ''http://a'', PyNone)]))
   \<and> fst (projl (poll_feed render feed1 (Inr (feed_with [untitled])) True
                   (stored [(py ''http://a'', PyNone)]))) = AttributeError
   \<and> posts (snd (projl (poll_feed render feed1 (Inr (feed_with [untitled])) True
                          (stored [(py ''http://a'', PyNone)])))) = []
   \<and> writes (snd (projl (poll_feed render feed1 (Inr (feed_with [untitled])) True
                           (stored [(py ''http://a'', PyNone)])))) = []"
  by (simp add: concrete_defs)

section \<open>Unguarded reads of the link\<close>

text \<open>
  Claim C10. For an entry without \<open>link\<close>, both the priming step and the polling step end
  with \<open>AttributeError\<close> and leave the stored mapping as it was, while the message
  formatter resolves the link of the same entry through its alternate links.
\<close>

theorem missing_link_raises_in_both_steps:
  assumes l: "link e = None" and tr: "entry_truthy e"
    and g: "fst (get_feed_and_latest_item (url cfg) parsed s) = (fo, Some e)"
    and d: "last_entries s = PyDict kvs"
  shows "isl (prime_feed cfg parsed dl s)
         \<and> fst (projl (prime_feed cfg parsed dl s)) = AttributeError
         \<and> last_entries (snd (projl (prime_feed cfg parsed dl s))) = last_entries s
         \<and> isl (poll_feed jd cfg parsed dl s)
         \<and> fst (projl (poll_feed jd cfg parsed dl s)) = AttributeError
         \<and> last_entries (snd (projl (poll_feed jd cfg parsed dl s))) = last_entries s
         \<and> writes (snd (projl (poll_feed jd cfg parsed dl s))) = writes s
         \<and> (\<forall>ls h. links e = Some ls \<and> find_alternate ls = Some h \<longrightarrow> entry_url_of e = h)"
proof -
  obtain s1 where g1: "get_feed_and_latest_item (url cfg) parsed
                         (print (LogFetchingStartup (name cfg)) s) = ((fo, Some e), s1)"
    and s1: "last_entries s1 = last_entries (print (LogFetchingStartup (name cfg)) s)"
    using fetched_state [OF g] by metis
  have prime: "isl (prime_feed cfg parsed dl s)
         \<and> fst (projl (prime_feed cfg parsed dl s)) = AttributeError
         \<and> last_entries (snd (projl (prime_feed cfg parsed dl s))) = last_entries s"
    using s1 by (simp add: prime_feed_def Let_def g1 truthy_def tr l split: option.splits)
  obtain s2 where g2: "get_feed_and_latest_item (url cfg) parsed
                         (print (LogChecking (name cfg) (url cfg)) s) = ((fo, Some e), s2)"
    and s2: "last_entries s2 = last_entries (print (LogChecking (name cfg) (url cfg)) s)"
      "writes s2 = writes (print (LogChecking (name cfg) (url cfg)) s)"
    using fetched_state [OF g] by metis
  have poll: "isl (poll_feed jd cfg parsed dl s)
         \<and> fst (projl (poll_feed jd cfg parsed dl s)) = AttributeError
         \<and> last_entries (snd (projl (poll_feed jd cfg parsed dl s))) = last_entries s
         \<and> writes (snd (projl (poll_feed jd cfg parsed dl s))) = writes s"
    using s2 announce_without_link [OF l]
    by (simp add: poll_feed_def Let_def g2 truthy_def tr l d dict_get_def is_new_def
        split: option.splits)
  show ?thesis using prime poll entry_url_of_alternate [OF l] by blast
qed

text \<open>
  Claim C10, witness: the Atom entry with an alternate \<open>text/html\<close> link.
\<close>

theorem missing_link_raises_in_both_steps_witness:
  "link atom_entry = None \<and> entry_truthy atom_entry
   \<and> fst (get_feed_and_latest_item (url feed1) (Inr (feed_with [atom_entry])) seen_a1)
       = (Some (feed_with [atom_entry]), Some atom_entry)
   \<and> last_entries seen_a1 = PyDict [(py ''http://a'', PyStr (py ''http://a/1''))]
   \<and> links atom_entry
       = Some [[(py ''rel'', py ''self''), (py ''href'', py ''http://a/3.xml'')],
               [(py ''rel'', py ''alternate''), (py ''type'', py ''text/html''),
                (py ''href'', py ''http://a/3'')]]
   \<and> find_alternate
        [[(py ''rel'', py ''self''), (py ''href'', py ''http://a/3.xml'')],
         [(py ''rel'', py ''alternate''), (py ''type'', py ''text/html''),
          (py ''href'', py ''http://a/3'')]] = Some (py ''http://a/3'')
   \<and> entry_url_of atom_entry = py ''http://a/3''
   \<and> isl (prime_feed feed1 (Inr (feed_with [atom_entry])) True seen_a1)
   \<and> fst (projl (prime_feed feed1 (Inr (feed_with [atom_entry])) True seen_a1)) = AttributeError
   \<and> isl (poll_feed render feed1 (Inr (feed_with [atom_entry])) True seen_a1)
   \<and> fst (projl (poll_feed render feed1 (Inr (feed_with [atom_entry])) True seen_a1))
       = AttributeError"
proof -
  have l: "link atom_entry = None" by (simp add: atom_entry_def plain_entry_def)
  have tr: "entry_truthy atom_entry" by (simp add: atom_entry_def plain_entry_def entry_truthy_def)
  have g: "fst (get_feed_and_latest_item (url feed1) (Inr (feed_with [atom_entry])) seen_a1)
             = (Some (feed_with [atom_entry]), Some atom_entry)"
    by (simp add: get_feed_and_latest_item_def feed_with_def)
  have d: "last_entries seen_a1 = PyDict [(py ''http://a'', PyStr (py ''http://a/1''))]"
    by (simp add: stored_def)
  have ls: "links atom_entry
       = Some [[(py ''rel'', py ''self''), (py ''href'', py ''http://a/3.xml'')],
               [(py ''rel'', py ''alternate''), (py ''type'', py ''text/html''),
                (py ''href'', py ''http://a/3'')]]"
    by (simp add: atom_entry_def plain_entry_def)
  have fa: "find_alternate
        [[(py ''rel'', py ''self''), (py ''href'', py ''http://a/3.xml'')],
         [(py ''rel'', py ''alternate''), (py ''type'', py ''text/html''),
          (py ''href'', py ''http://a/3'')]] = Some (py ''http://a/3'')"
    by simp
  show ?thesis
    using l tr g d ls fa missing_link_raises_in_both_steps [OF l tr g d, where dl = True and jd = render]
    by blast
qed

end
